theory Spec2Isabelle
  imports Main "HOL-Library.Sublist"
begin

section \<open>The orchestration core of platform.js\<close>

text \<open>
  The class \<^verbatim>\<open>ProactiveAssistantPlatform\<close> of \<^verbatim>\<open>src/src/platform.js\<close> is glue:
  it registers nine handlers, loads one snapshot file, installs a listener for
  web-socket messages and arms three interval timers. What the handlers, the file
  system and the JSON parser do is not in the file; it is a parameter of the model (the
  record \<open>env\<close>), and every call that leaves the file is written to a trace with its
  outcome. A call can fail: an exception thrown or a promise rejected is the value
  \<open>Inl e\<close>, and the \<^verbatim>\<open>try\<close>/\<^verbatim>\<open>catch\<close> blocks of the source are the only places
  where the model turns such a value back into a normal return.

  The class calls two methods on itself that it does not define,
  \<^verbatim>\<open>notifyHandlers\<close> (line 137) and \<^verbatim>\<open>updateProactiveSuggestions\<close> (line 106). Its
  body (lines 20-151) has the constructor, \<^verbatim>\<open>initializeHandlers\<close>,
  \<^verbatim>\<open>loadUserState\<close>, \<^verbatim>\<open>setupWebSocket\<close>, \<^verbatim>\<open>startProactiveMonitoring\<close>,
  \<^verbatim>\<open>runPeriodicChecks\<close>, \<^verbatim>\<open>analyzeUserPatterns\<close>, \<^verbatim>\<open>updateKnowledgeBase\<close>,
  \<^verbatim>\<open>handleMessage\<close> and \<^verbatim>\<open>start\<close>, it extends nothing, and no statement of the
  file adds a property to the object. So either name reads as \<^verbatim>\<open>undefined\<close>, and
  calling it throws a TypeError at that line.
\<close>

subsection \<open>JavaScript values and errors\<close>

text \<open>
  The values the router looks into. Numbers are carried but never inspected by the
  platform, so their type is the parameter \<open>'n\<close>. An object is its list of properties;
  reading a property takes the first entry of that name.
\<close>

datatype 'n val =
    VUndefined
  | VNull
  | VBool bool
  | VNum 'n
  | VStr string
  | VArr "'n val list"
  | VObj "(string \<times> 'n val) list"

text \<open>
  What a \<^verbatim>\<open>throw\<close> or a rejected promise carries: a \<^verbatim>\<open>TypeError\<close> (reading a
  property of \<^verbatim>\<open>undefined\<close> or \<^verbatim>\<open>null\<close>, calling what is not a function), the
  \<^verbatim>\<open>SyntaxError\<close> of \<^verbatim>\<open>JSON.parse\<close>, or any other failure.
\<close>

datatype error = TypeError string | SyntaxError string | Failure string

subsection \<open>The state store and the registry\<close>

text \<open>The object \<^verbatim>\<open>this.state\<close> (lines 25-31).\<close>

record 'n state_store =
  activeProjects :: "'n val set"
  pendingTasks :: "('n val \<times> 'n val) list"
  upcomingEvents :: "'n val list"
  lastAnalysis :: "'n val"
  userPreferences :: "'n val"

text \<open>
  A handler instance is known by the module its class was required from
  (lines 10-18); \<^verbatim>\<open>this.handlers\<close> maps a capability name to an instance.
\<close>

datatype handler = Instance string

text \<open>
  An argument of a handler call is a value or the state store. The store is handed over
  as the object it is (line 103 passes \<^verbatim>\<open>this.state\<close>, no copy): \<open>LiveStore s\<close> has
  its content \<open>s\<close> at the time of the call, and the callee can change it.
\<close>

datatype 'n arg = Val "'n val" | LiveStore "'n state_store"

text \<open>
  The calls that leave platform.js: \<^verbatim>\<open>new cls()\<close> for the class required from a
  module, a method of a handler instance with its arguments, \<^verbatim>\<open>fs.readFile\<close> and
  \<^verbatim>\<open>console.error\<close>.
\<close>

datatype 'n call =
    New string
  | Invoke handler string "'n arg list"
  | ReadFile string
  | ConsoleError string error

text \<open>
  The environment: \<^verbatim>\<open>JSON.parse\<close> (a pure function of the text),
  \<^verbatim>\<open>fs.readFile(_, 'utf8')\<close>, every other call (a handler's constructor, a handler's
  method) as a function of the world outside that returns the outcome and the world
  after the call, what a call that was handed the state store has made of it
  (\<open>store_after\<close>: the store when the call is over, whether the call succeeds or not),
  and the runtime's policy for a rejected promise that nobody handles: Node prints a
  warning or terminates the process, depending on its version and flags. A method that
  an instance does not have is a call that fails with a TypeError.
\<close>

record ('n, 'w) env =
  JSON_parse :: "string \<Rightarrow> error + 'n val"
  readFile :: "string \<Rightarrow> 'w \<Rightarrow> (error + string) \<times> 'w"
  perform :: "'n call \<Rightarrow> 'w \<Rightarrow> (error + 'n val) \<times> 'w"
  store_after :: "'n call \<Rightarrow> 'w \<Rightarrow> 'n state_store"
  exits_on_unhandled :: bool

subsection \<open>The platform object and the event loop's bookkeeping\<close>

datatype job = RunPeriodicChecks | AnalyzeUserPatterns | UpdateKnowledgeBase

text \<open>
  An asynchronous invocation that has started and not yet settled: a firing of a timer
  callback, the handling of one message of one connection, or the initial load that
  \<^verbatim>\<open>initializeHandlers\<close> awaits.
\<close>

datatype invocation = Firing job | Handling nat string | Loading

record ('n, 'w) platform =
  handlers :: "string \<rightharpoonup> handler"
  state :: "'n state_store"
  listening :: bool
  conns :: "nat set"
  timers :: "(nat \<times> job) list"
  inflight :: "invocation list"
  unhandled :: "error list"
  alive :: bool
  world :: 'w
  trace :: "('n call \<times> (error + 'n val)) list"

text \<open>
  Fields beyond the class's own: \<open>listening\<close> (the \<^verbatim>\<open>'connection'\<close> listener of
  line 65 is installed), \<open>conns\<close> (the open connections carrying the message listener of
  line 66), \<open>timers\<close> (the table of \<^verbatim>\<open>setInterval\<close>: interval in ms and callback),
  \<open>inflight\<close>, \<open>unhandled\<close> (rejections of promises that no code awaits or catches),
  \<open>alive\<close> (the process has not been terminated), \<open>world\<close> (everything outside the
  file) and \<open>trace\<close>.
\<close>

type_synonym ('n, 'w, 'a) action =
  "('n, 'w) platform \<Rightarrow> (error + 'a) \<times> ('n, 'w) platform"

definition ret :: "'a \<Rightarrow> ('n, 'w, 'a) action" where
  "ret v p = (Inr v, p)"

text \<open>Sequencing of awaited steps: a failure ends the function at that step.\<close>

definition andThen ::
  "('n, 'w, 'a) action \<Rightarrow> ('a \<Rightarrow> ('n, 'w, 'b) action) \<Rightarrow> ('n, 'w, 'b) action" where
  "andThen f g p = (case f p of (Inl e, p') \<Rightarrow> (Inl e, p') | (Inr a, p') \<Rightarrow> g a p')"

definition perform_call :: "('n, 'w) env \<Rightarrow> 'n call \<Rightarrow> ('n, 'w, 'n val) action" where
  "perform_call E c p =
     (case perform E c (world p) of
        (r, w') \<Rightarrow> (r, p\<lparr>world := w', trace := trace p @ [(c, r)]\<rparr>))"

definition console_error ::
  "string \<Rightarrow> error \<Rightarrow> ('n, 'w) platform \<Rightarrow> ('n, 'w) platform" where
  "console_error msg e p = p\<lparr>trace := trace p @ [(ConsoleError msg e, Inr VUndefined)]\<rparr>"

text \<open>
  \<^verbatim>\<open>this.handlers.get(name).method(args)\<close>: \<^verbatim>\<open>get\<close> of an unregistered name is
  \<^verbatim>\<open>undefined\<close>, and reading the method from it throws a TypeError before any call
  is made.
\<close>

definition invoke ::
  "('n, 'w) env \<Rightarrow> string \<Rightarrow> string \<Rightarrow> 'n arg list \<Rightarrow> ('n, 'w, 'n val) action" where
  "invoke E name method args p =
     (case handlers p name of
        None \<Rightarrow> (Inl (TypeError method), p)
      | Some h \<Rightarrow> perform_call E (Invoke h method args) p)"

text \<open>
  \<^verbatim>\<open>this.handlers.get(name).method(this.state)\<close>: the callee receives the store
  itself, so the store after the call is what the callee has left.
\<close>

definition invoke_with_store ::
  "('n, 'w) env \<Rightarrow> string \<Rightarrow> string \<Rightarrow> ('n, 'w, 'n val) action" where
  "invoke_with_store E name method p =
     (case handlers p name of
        None \<Rightarrow> (Inl (TypeError method), p)
      | Some h \<Rightarrow>
          (case perform E (Invoke h method [LiveStore (state p)]) (world p) of
             (r, w') \<Rightarrow>
               (r, p\<lparr>state := store_after E (Invoke h method [LiveStore (state p)]) (world p),
                      world := w',
                      trace := trace p @ [(Invoke h method [LiveStore (state p)], r)]\<rparr>)))"

text \<open>
  \<^verbatim>\<open>this.name(...)\<close> for a name that the class does not define: the call throws a
  TypeError and nothing else happens.
\<close>

definition undefined_method :: "string \<Rightarrow> ('n, 'w, 'n val) action" where
  "undefined_method name p = (Inl (TypeError name), p)"

subsection \<open>initializeHandlers and loadUserState (lines 38-62)\<close>

text \<open>
  \<^verbatim>\<open>this.handlers.set(name, new cls())\<close>: the constructor runs first; when it
  throws, \<^verbatim>\<open>set\<close> is not reached.
\<close>

definition register :: "('n, 'w) env \<Rightarrow> string \<Rightarrow> string \<Rightarrow> ('n, 'w, unit) action" where
  "register E name module p =
     (case perform_call E (New module) p of
        (Inl e, p') \<Rightarrow> (Inl e, p')
      | (Inr _, p') \<Rightarrow> (Inr (), p'\<lparr>handlers := (handlers p')(name \<mapsto> Instance module)\<rparr>))"

text \<open>
  The part of \<^verbatim>\<open>initializeHandlers\<close> that runs inside the constructor: the nine
  registrations, then the call of \<^verbatim>\<open>loadUserState\<close>, whose \<^verbatim>\<open>readFile\<close> is
  awaited, so the load is in flight when the constructor goes on.
\<close>

definition initializeHandlers :: "('n, 'w) env \<Rightarrow> ('n, 'w, unit) action" where
  "initializeHandlers E =
     andThen (register E ''logseq'' ''./handlers/logseq'') (\<lambda>_.
     andThen (register E ''filesystem'' ''./handlers/filesystem'') (\<lambda>_.
     andThen (register E ''memory'' ''./handlers/memory'') (\<lambda>_.
     andThen (register E ''email'' ''./handlers/email'') (\<lambda>_.
     andThen (register E ''calendar'' ''./handlers/calendar'') (\<lambda>_.
     andThen (register E ''claude'' ''./handlers/claude'') (\<lambda>_.
     andThen (register E ''tasks'' ''./handlers/tasks'') (\<lambda>_.
     andThen (register E ''projects'' ''./handlers/projects'') (\<lambda>_.
     andThen (register E ''brainstorm'' ''./handlers/brainstorm'') (\<lambda>_.
     (\<lambda>p. (Inr (), p\<lparr>inflight := inflight p @ [Loading]\<rparr>)))))))))))"

definition set_userPreferences ::
  "'n val \<Rightarrow> ('n, 'w) platform \<Rightarrow> ('n, 'w) platform" where
  "set_userPreferences v p = p\<lparr>state := (state p)\<lparr>userPreferences := v\<rparr>\<rparr>"

text \<open>The \<^verbatim>\<open>catch\<close> block of \<^verbatim>\<open>loadUserState\<close> (lines 58-61).\<close>

definition loadUserState_catch :: "error \<Rightarrow> ('n, 'w, 'n val) action" where
  "loadUserState_catch e p =
     (Inr VUndefined,
      set_userPreferences (VObj []) (console_error ''Error loading user state:'' e p))"

definition loadUserState :: "('n, 'w) env \<Rightarrow> ('n, 'w, 'n val) action" where
  "loadUserState E p =
     (case readFile E ''state/user_state.json'' (world p) of
        (r, w') \<Rightarrow>
          (let p1 = p\<lparr>world := w',
                       trace := trace p @ [(ReadFile ''state/user_state.json'', map_sum id VStr r)]\<rparr>
           in case r of
                Inl e \<Rightarrow> loadUserState_catch e p1
              | Inr stateFile \<Rightarrow>
                  (case JSON_parse E stateFile of
                     Inl e \<Rightarrow> loadUserState_catch e p1
                   | Inr v \<Rightarrow> (Inr VUndefined, set_userPreferences v p1))))"

subsection \<open>The three scheduled jobs (lines 84-118)\<close>

definition runPeriodicChecks :: "('n, 'w) env \<Rightarrow> ('n, 'w, 'n val) action" where
  "runPeriodicChecks E =
     andThen (invoke E ''tasks'' ''checkUrgentTasks'' []) (\<lambda>_.
     andThen (invoke E ''projects'' ''checkProjectDeadlines'' []) (\<lambda>_.
     andThen (invoke E ''calendar'' ''checkUpcomingEvents'' []) (\<lambda>_.
     andThen (invoke E ''email'' ''checkImportantEmails'' []) (\<lambda>_.
     andThen (invoke E ''logseq'' ''updateEntries'' []) (\<lambda>_.
     ret VUndefined)))))"

text \<open>
  \<^verbatim>\<open>analyzeUserPatterns\<close> (lines 101-107): the analysis is awaited; line 106 then
  calls \<^verbatim>\<open>this.updateProactiveSuggestions(analysis)\<close>, which the class does not
  define.
\<close>

definition analyzeUserPatterns :: "('n, 'w) env \<Rightarrow> ('n, 'w, 'n val) action" where
  "analyzeUserPatterns E =
     andThen (invoke_with_store E ''claude'' ''analyzePatterns'') (\<lambda>analysis.
     andThen (undefined_method ''updateProactiveSuggestions'') (\<lambda>_.
     ret VUndefined))"

definition updateKnowledgeBase :: "('n, 'w) env \<Rightarrow> ('n, 'w, 'n val) action" where
  "updateKnowledgeBase E =
     andThen (invoke E ''memory'' ''updateKnowledgeBase'' []) (\<lambda>_.
     andThen (invoke E ''claude'' ''generateInsights'' []) (\<lambda>insights.
     andThen (invoke E ''projects'' ''updateStrategies'' [Val insights]) (\<lambda>_.
     ret VUndefined)))"

subsection \<open>handleMessage and the message listener (lines 64-75, 120-138)\<close>

text \<open>
  \<^verbatim>\<open>const { type, payload } = data\<close>: destructuring \<^verbatim>\<open>undefined\<close> or \<^verbatim>\<open>null\<close>
  throws; a property that is absent reads as \<^verbatim>\<open>undefined\<close>, and so does any
  property of this name on a boolean, a number, a string or an array.
\<close>

definition property :: "(string \<times> 'n val) list \<Rightarrow> string \<Rightarrow> 'n val" where
  "property props k = (case map_of props k of None \<Rightarrow> VUndefined | Some v \<Rightarrow> v)"

fun destructure :: "'n val \<Rightarrow> error + ('n val \<times> 'n val)" where
  "destructure VUndefined = Inl (TypeError ''type'')"
| "destructure VNull = Inl (TypeError ''type'')"
| "destructure (VObj props) = Inr (property props ''type'', property props ''payload'')"
| "destructure _ = Inr (VUndefined, VUndefined)"

text \<open>The \<^verbatim>\<open>switch\<close> of lines 123-134; a type that matches no case does nothing.\<close>

definition dispatch :: "('n, 'w) env \<Rightarrow> 'n val \<Rightarrow> 'n val \<Rightarrow> ('n, 'w, 'n val) action" where
  "dispatch E type payload =
     (if type = VStr ''TASK_UPDATE'' then invoke E ''tasks'' ''handleTaskUpdate'' [Val payload]
      else if type = VStr ''PROJECT_UPDATE'' then
        invoke E ''projects'' ''handleProjectUpdate'' [Val payload]
      else if type = VStr ''BRAINSTORM_REQUEST'' then
        invoke E ''brainstorm'' ''handleBrainstormSession'' [Val payload]
      else ret VUndefined)"

text \<open>
  \<^verbatim>\<open>handleMessage\<close> (lines 120-138). The handler call of the matching case is
  awaited. Line 137 then calls \<^verbatim>\<open>this.notifyHandlers(type, payload)\<close>, which the
  class does not define: the call throws inside the asynchronous function, whose
  promise is thereby rejected.
\<close>

definition handleMessage :: "('n, 'w) env \<Rightarrow> 'n val \<Rightarrow> nat \<Rightarrow> ('n, 'w, 'n val) action" where
  "handleMessage E data ws =
     (case destructure data of
        Inl e \<Rightarrow> (\<lambda>p. (Inl e, p))
      | Inr (type, payload) \<Rightarrow>
          andThen (dispatch E type payload) (\<lambda>_.
          andThen (undefined_method ''notifyHandlers'') (\<lambda>_.
          ret VUndefined)))"

text \<open>The listener of lines 66-73: parse, handle, and catch whatever either throws.\<close>

definition on_message ::
  "('n, 'w) env \<Rightarrow> nat \<Rightarrow> string \<Rightarrow> ('n, 'w) platform \<Rightarrow> ('n, 'w) platform" where
  "on_message E ws message p =
     (case JSON_parse E message of
        Inl e \<Rightarrow> console_error ''Error handling message:'' e p
      | Inr data \<Rightarrow>
          (case handleMessage E data ws p of
             (Inl e, p') \<Rightarrow> console_error ''Error handling message:'' e p'
           | (Inr _, p') \<Rightarrow> p'))"

subsection \<open>Start-up and the event loop (lines 21-36, 64-82)\<close>

definition setupWebSocket :: "('n, 'w) platform \<Rightarrow> ('n, 'w) platform" where
  "setupWebSocket p = p\<lparr>listening := True\<rparr>"

definition startProactiveMonitoring :: "('n, 'w) platform \<Rightarrow> ('n, 'w) platform" where
  "startProactiveMonitoring p =
     p\<lparr>timers := timers p @
          [(300000, RunPeriodicChecks), (3600000, AnalyzeUserPatterns),
           (86400000, UpdateKnowledgeBase)]\<rparr>"

text \<open>
  A promise that is dropped: the constructor does not await
  \<^verbatim>\<open>initializeHandlers\<close>, and \<^verbatim>\<open>setInterval\<close> ignores what its callback
  returns. A rejection of such a promise is unhandled.
\<close>

definition dropped ::
  "('n, 'w) env \<Rightarrow> (error + 'a) \<times> ('n, 'w) platform \<Rightarrow> ('n, 'w) platform" where
  "dropped E rp =
     (case rp of
        (Inl e, p) \<Rightarrow> p\<lparr>unhandled := unhandled p @ [e],
                         alive := alive p \<and> \<not> exits_on_unhandled E\<rparr>
      | (Inr _, p) \<Rightarrow> p)"

definition initial :: "'w \<Rightarrow> ('n, 'w) platform" where
  "initial w =
     \<lparr>handlers = Map.empty,
      state = \<lparr>activeProjects = {}, pendingTasks = [], upcomingEvents = [],
               lastAnalysis = VNull, userPreferences = VNull\<rparr>,
      listening = False, conns = {}, timers = [], inflight = [], unhandled = [],
      alive = True, world = w, trace = []\<rparr>"

definition constructor :: "('n, 'w) env \<Rightarrow> 'w \<Rightarrow> ('n, 'w) platform" where
  "constructor E w =
     startProactiveMonitoring (setupWebSocket (dropped E (initializeHandlers E (initial w))))"

definition job_body :: "('n, 'w) env \<Rightarrow> job \<Rightarrow> ('n, 'w, 'n val) action" where
  "job_body E j =
     (case j of
        RunPeriodicChecks \<Rightarrow> runPeriodicChecks E
      | AnalyzeUserPatterns \<Rightarrow> analyzeUserPatterns E
      | UpdateKnowledgeBase \<Rightarrow> updateKnowledgeBase E)"

text \<open>
  What the event loop can see happen: a timer elapses (\<open>Tick i\<close>, for the \<open>i\<close>-th
  entry of the timer table), a client connects (the \<^verbatim>\<open>'connection'\<close> event that
  \<^verbatim>\<open>start\<close> emits on an upgrade, lines 145-149) or goes away, a message arrives on a
  connection, an invocation in flight runs to its end (\<open>Settle k\<close>, for the \<open>k\<close>-th
  invocation in flight). An asynchronous function is suspended at each \<^verbatim>\<open>await\<close>,
  so other invocations start and end while it is running; the model keeps it in
  \<open>inflight\<close> from its start to its end and takes its calls in one piece when it
  settles. A terminated process sees nothing happen any more.
\<close>

datatype event = Tick nat | Connect nat | Disconnect nat | Message nat string | Settle nat

definition settle ::
  "('n, 'w) env \<Rightarrow> invocation \<Rightarrow> ('n, 'w) platform \<Rightarrow> ('n, 'w) platform" where
  "settle E i p =
     (case i of
        Firing j \<Rightarrow> dropped E (job_body E j p)
      | Handling ws message \<Rightarrow> on_message E ws message p
      | Loading \<Rightarrow> dropped E (loadUserState E p))"

text \<open>The invocation at position \<open>k\<close> leaves \<open>inflight\<close>; the others stay.\<close>

definition dequeue :: "nat \<Rightarrow> ('n, 'w) platform \<Rightarrow> ('n, 'w) platform" where
  "dequeue k p = p\<lparr>inflight := take k (inflight p) @ drop (Suc k) (inflight p)\<rparr>"

definition step :: "('n, 'w) env \<Rightarrow> event \<Rightarrow> ('n, 'w) platform \<Rightarrow> ('n, 'w) platform" where
  "step E ev p =
     (if \<not> alive p then p
      else case ev of
        Tick i \<Rightarrow>
          (if i < length (timers p)
           then p\<lparr>inflight := inflight p @ [Firing (snd (timers p ! i))]\<rparr> else p)
      | Connect ws \<Rightarrow> (if listening p then p\<lparr>conns := insert ws (conns p)\<rparr> else p)
      | Disconnect ws \<Rightarrow> p\<lparr>conns := conns p - {ws}\<rparr>
      | Message ws message \<Rightarrow>
          (if ws \<in> conns p then p\<lparr>inflight := inflight p @ [Handling ws message]\<rparr> else p)
      | Settle k \<Rightarrow>
          (if k < length (inflight p)
           then settle E (inflight p ! k) (dequeue k p)
           else p))"

definition run :: "('n, 'w) env \<Rightarrow> event list \<Rightarrow> ('n, 'w) platform \<Rightarrow> ('n, 'w) platform" where
  "run E evs p = foldl (\<lambda>q ev. step E ev q) p evs"

text \<open>The calls an action has added to the trace.\<close>

definition new_calls ::
  "('n, 'w) platform \<Rightarrow> ('n, 'w) platform \<Rightarrow> ('n call \<times> (error + 'n val)) list" where
  "new_calls p p' = drop (length (trace p)) (trace p')"

section \<open>Vocabulary of the theorems and of their proofs\<close>

definition succeeded :: "error + 'a \<Rightarrow> bool" where
  "succeeded r = (case r of Inl _ \<Rightarrow> False | Inr _ \<Rightarrow> True)"

definition is_log :: "'n call \<Rightarrow> bool" where
  "is_log c = (case c of ConsoleError _ _ \<Rightarrow> True | _ \<Rightarrow> False)"

definition is_handler_call :: "'n call \<Rightarrow> bool" where
  "is_handler_call c = (case c of Invoke _ _ _ \<Rightarrow> True | _ \<Rightarrow> False)"

subsection \<open>Predicates and functions of the proofs\<close>

text \<open>
  Everything of the platform object but the state store (a callee that was handed the
  store can change it), the world outside and the trace.
\<close>

definition same_platform :: "('n, 'w) platform \<Rightarrow> ('n, 'w) platform \<Rightarrow> bool" where
  "same_platform p p' \<longleftrightarrow>
     handlers p' = handlers p \<and> listening p' = listening p \<and>
     conns p' = conns p \<and> timers p' = timers p \<and> inflight p' = inflight p \<and>
     unhandled p' = unhandled p \<and> alive p' = alive p"

text \<open>
  An action that only makes calls: it leaves the platform object alone (the state
  store apart), logs nothing,
  makes no call after a failed one, and fails with the failure of its last call when a
  call has failed.
\<close>

definition stops_at_failure :: "error + 'a \<Rightarrow> ('n call \<times> (error + 'n val)) list \<Rightarrow> bool" where
  "stops_at_failure r d \<longleftrightarrow>
     list_all (\<lambda>x. succeeded (snd x)) (butlast d) \<and>
     list_all (\<lambda>x. \<not> is_log (fst x)) d \<and>
     (list_all (\<lambda>x. succeeded (snd x)) d \<or>
      (\<exists>e. r = Inl e \<and> d \<noteq> [] \<and> snd (last d) = Inl e))"

definition calls_only :: "('n, 'w, 'a) action \<Rightarrow> bool" where
  "calls_only f \<longleftrightarrow>
     (\<forall>p. same_platform p (snd (f p)) \<and>
          (\<exists>d. trace (snd (f p)) = trace p @ d \<and> stops_at_failure (fst (f p)) d))"

text \<open>The nine registrations of lines 40-48 as a table, and the registry after the first \<open>k\<close>.\<close>

definition handler_table :: "(string \<times> string) list" where
  "handler_table =
     [(''logseq'', ''./handlers/logseq''), (''filesystem'', ''./handlers/filesystem''),
      (''memory'', ''./handlers/memory''), (''email'', ''./handlers/email''),
      (''calendar'', ''./handlers/calendar''), (''claude'', ''./handlers/claude''),
      (''tasks'', ''./handlers/tasks''), (''projects'', ''./handlers/projects''),
      (''brainstorm'', ''./handlers/brainstorm'')]"

fun registry_of :: "(string \<times> string) list \<Rightarrow> (string \<rightharpoonup> handler) \<Rightarrow> (string \<rightharpoonup> handler)" where
  "registry_of [] m = m"
| "registry_of ((name, module) # rest) m = registry_of rest (m(name \<mapsto> Instance module))"

fun register_all :: "('n, 'w) env \<Rightarrow> (string \<times> string) list \<Rightarrow> ('n, 'w, unit) action" where
  "register_all E [] = ret ()"
| "register_all E ((name, module) # rest) =
     andThen (register E name module) (\<lambda>_. register_all E rest)"

text \<open>A run of argument-free handler calls, each awaited: the shape of \<^verbatim>\<open>runPeriodicChecks\<close>.\<close>

fun invoke_all :: "('n, 'w) env \<Rightarrow> (string \<times> string) list \<Rightarrow> ('n, 'w, 'n val) action" where
  "invoke_all E [] = ret VUndefined"
| "invoke_all E ((name, method) # rest) =
     andThen (invoke E name method []) (\<lambda>_. invoke_all E rest)"

section \<open>A sample environment\<close>

text \<open>
  For the concrete runs: a parser that knows three texts, a file system that answers
  every read with \<open>file\<close>, calls that fail exactly when \<open>fails\<close> says so and otherwise
  return the name of the method called, a callee of \<^verbatim>\<open>analyzePatterns\<close> that leaves
  the store as it was handed over, and a world that counts the calls.
\<close>

definition task_update_text :: string where
  \<open>task_update_text = ''{"type":"TASK_UPDATE","payload":{"id":"t1"}}''\<close>

definition ping_text :: string where
  \<open>ping_text = ''{"type":"PING","payload":7}''\<close>

definition sample_parse :: "string \<Rightarrow> error + nat val" where
  "sample_parse s =
     (if s = ''{}'' then Inr (VObj [])
      else if s = task_update_text then
        Inr (VObj [(''type'', VStr ''TASK_UPDATE''), (''payload'', VObj [(''id'', VStr ''t1'')])])
      else if s = ping_text then
        Inr (VObj [(''type'', VStr ''PING''), (''payload'', VNum 7)])
      else Inl (SyntaxError s))"

definition handed_store :: "nat call \<Rightarrow> nat state_store" where
  "handed_store c =
     (case c of
        Invoke h m (LiveStore s # rest) \<Rightarrow> s
      | _ \<Rightarrow> \<lparr>activeProjects = {}, pendingTasks = [], upcomingEvents = [],
               lastAnalysis = VNull, userPreferences = VNull\<rparr>)"

definition sample_result :: "nat call \<Rightarrow> nat val" where
  "sample_result c = (case c of Invoke h m args \<Rightarrow> VStr m | _ \<Rightarrow> VUndefined)"

definition sample_env ::
  "(nat call \<Rightarrow> bool) \<Rightarrow> bool \<Rightarrow> error + string \<Rightarrow> (nat, nat) env" where
  "sample_env fails exits file =
     \<lparr>JSON_parse = sample_parse,
      readFile = (\<lambda>path w. (file, Suc w)),
      perform = (\<lambda>c w. (if fails c then Inl (Failure ''rejected'') else Inr (sample_result c),
                         Suc w)),
      store_after = (\<lambda>c w. handed_store c),
      exits_on_unhandled = exits\<rparr>"

definition never :: "nat call \<Rightarrow> bool" where
  "never c \<longleftrightarrow> False"

definition only :: "nat call \<Rightarrow> nat call \<Rightarrow> bool" where
  "only c c' \<longleftrightarrow> c' = c"

text \<open>A runtime in which nothing fails, and one where exactly the call \<open>c\<close> fails.\<close>

definition unfailing :: "(nat, nat) env" where
  "unfailing = sample_env never False (Inr ''{}'')"

definition failing :: "nat call \<Rightarrow> (nat, nat) env" where
  "failing c = sample_env (only c) False (Inr ''{}'')"

text \<open>The platform after a start-up in which nothing fails and the load has settled.\<close>

definition started :: "(nat, nat) platform" where
  "started = step unfailing (Settle 0) (constructor unfailing 0)"

section \<open>Lemmas\<close>

subsection \<open>Actions that only make calls\<close>

lemma same_platform_refl [simp]: "same_platform p p"
  by (simp add: same_platform_def)

lemma same_platform_trans: "same_platform p q \<Longrightarrow> same_platform q r \<Longrightarrow> same_platform p r"
  by (simp add: same_platform_def)

lemma stops_at_failure_Nil [simp]: "stops_at_failure r []"
  by (simp add: stops_at_failure_def)

lemma stops_at_failure_single:
  "\<not> is_log c \<Longrightarrow> stops_at_failure r [(c, r)]"
  by (cases r) (simp_all add: stops_at_failure_def succeeded_def)

lemma stops_at_failure_append:
  assumes "stops_at_failure (Inr a :: error + 'a) d1" and "stops_at_failure r d2"
  shows "stops_at_failure r (d1 @ d2)"
proof -
  from assms(1) have ok1: "list_all (\<lambda>x. succeeded (snd x)) d1"
    and nl1: "list_all (\<lambda>x. \<not> is_log (fst x)) d1"
    by (auto simp: stops_at_failure_def)
  show ?thesis
  proof (cases "d2 = []")
    case True
    with assms(1) ok1 nl1 show ?thesis
      by (auto simp: stops_at_failure_def)
  next
    case False
    with assms(2) ok1 nl1 show ?thesis
      by (auto simp: stops_at_failure_def butlast_append)
  qed
qed

lemma stops_at_failure_Inl:
  "stops_at_failure (Inl e :: error + 'a) d \<Longrightarrow> stops_at_failure (Inl e :: error + 'b) d"
  by (simp add: stops_at_failure_def)

lemma calls_only_ret: "calls_only (ret v)"
  by (simp add: calls_only_def ret_def)

lemma calls_only_perform_call: "\<not> is_log c \<Longrightarrow> calls_only (perform_call E c)"
  by (auto simp: calls_only_def perform_call_def same_platform_def stops_at_failure_single
      split: prod.splits)

lemma calls_only_undefined_method: "calls_only (undefined_method name)"
  by (simp add: calls_only_def undefined_method_def)

lemma calls_only_invoke_with_store: "calls_only (invoke_with_store E name method)"
  by (auto simp: calls_only_def invoke_with_store_def same_platform_def stops_at_failure_single
      is_log_def split: option.splits prod.splits)

lemma calls_only_invoke: "calls_only (invoke E name method args)"
  unfolding calls_only_def
proof (intro allI)
  fix p :: "('a, 'b) platform"
  show "same_platform p (snd (invoke E name method args p)) \<and>
        (\<exists>d. trace (snd (invoke E name method args p)) = trace p @ d \<and>
             stops_at_failure (fst (invoke E name method args p)) d)"
  proof (cases "handlers p name")
    case None
    then show ?thesis by (simp add: invoke_def)
  next
    case (Some h)
    have "calls_only (perform_call E (Invoke h method args))"
      by (rule calls_only_perform_call) (simp add: is_log_def)
    with Some show ?thesis by (simp add: invoke_def calls_only_def)
  qed
qed

lemma calls_only_andThen:
  assumes f: "calls_only f" and g: "\<And>a. calls_only (g a)"
  shows "calls_only (andThen f g)"
  unfolding calls_only_def
proof (intro allI)
  fix p
  obtain r1 p1 where fp: "f p = (r1, p1)" by (cases "f p")
  from f fp obtain d1 where 1: "same_platform p p1" "trace p1 = trace p @ d1"
      "stops_at_failure r1 d1"
    by (auto simp: calls_only_def dest: spec [where x = p])
  show "same_platform p (snd (andThen f g p)) \<and>
        (\<exists>d. trace (snd (andThen f g p)) = trace p @ d \<and>
             stops_at_failure (fst (andThen f g p)) d)"
  proof (cases r1)
    case (Inl e)
    with fp 1 show ?thesis by (auto simp: andThen_def intro: stops_at_failure_Inl)
  next
    case (Inr a)
    obtain r2 p2 where gp: "g a p1 = (r2, p2)" by (cases "g a p1")
    from g [of a] gp obtain d2 where 2: "same_platform p1 p2" "trace p2 = trace p1 @ d2"
        "stops_at_failure r2 d2"
      by (auto simp: calls_only_def dest: spec [where x = p1])
    from 1 2 Inr have "stops_at_failure r2 (d1 @ d2)"
      by (auto intro: stops_at_failure_append)
    with fp gp Inr 1 2 show ?thesis
      by (auto simp: andThen_def intro: same_platform_trans)
  qed
qed

lemma calls_only_runPeriodicChecks: "calls_only (runPeriodicChecks E)"
  unfolding runPeriodicChecks_def
  by (intro calls_only_andThen calls_only_invoke calls_only_ret)

lemma calls_only_updateKnowledgeBase: "calls_only (updateKnowledgeBase E)"
  unfolding updateKnowledgeBase_def
  by (intro calls_only_andThen calls_only_invoke calls_only_ret)

lemma calls_only_analyzeUserPatterns: "calls_only (analyzeUserPatterns E)"
  unfolding analyzeUserPatterns_def
  by (intro calls_only_andThen calls_only_invoke_with_store calls_only_undefined_method
      calls_only_ret)

lemma calls_only_job_body: "calls_only (job_body E j)"
  by (cases j)
    (simp_all add: job_body_def calls_only_runPeriodicChecks calls_only_analyzeUserPatterns
      calls_only_updateKnowledgeBase)

lemma calls_only_dispatch: "calls_only (dispatch E type payload)"
  by (simp add: dispatch_def calls_only_invoke calls_only_ret)

lemma calls_only_handleMessage: "calls_only (handleMessage E data ws)"
proof (cases "destructure data")
  case (Inl e)
  then show ?thesis by (simp add: handleMessage_def calls_only_def)
next
  case (Inr tp)
  obtain type payload where "tp = (type, payload)" by (cases tp)
  with Inr have "handleMessage E data ws =
      andThen (dispatch E type payload) (\<lambda>_.
      andThen (undefined_method ''notifyHandlers'') (\<lambda>_. ret VUndefined))"
    by (simp add: handleMessage_def)
  then show ?thesis
    by (simp add: calls_only_andThen calls_only_dispatch calls_only_undefined_method
        calls_only_ret)
qed



subsection \<open>Bookkeeping of the loop\<close>

lemma trace_dequeue [simp]: "trace (dequeue k p) = trace p"
  by (simp add: dequeue_def)

lemma new_calls_append: "trace p' = trace p @ d \<Longrightarrow> new_calls p p' = d"
  by (simp add: new_calls_def)

lemma dropped_fields [simp]:
  "handlers (dropped E (r, q)) = handlers q" "state (dropped E (r, q)) = state q"
  "timers (dropped E (r, q)) = timers q" "conns (dropped E (r, q)) = conns q"
  "inflight (dropped E (r, q)) = inflight q" "trace (dropped E (r, q)) = trace q"
  "listening (dropped E (r, q)) = listening q" "world (dropped E (r, q)) = world q"
  by (cases r; simp add: dropped_def)+

lemma loadUserState_returns: "fst (loadUserState E p) = Inr VUndefined"
  by (simp add: loadUserState_def loadUserState_catch_def Let_def split: prod.splits sum.splits)

subsection \<open>Runs of handler calls and of registrations\<close>

lemma runPeriodicChecks_invoke_all:
  "runPeriodicChecks E =
     invoke_all E [(''tasks'', ''checkUrgentTasks''), (''projects'', ''checkProjectDeadlines''),
       (''calendar'', ''checkUpcomingEvents''), (''email'', ''checkImportantEmails''),
       (''logseq'', ''updateEntries'')]"
  by (simp add: runPeriodicChecks_def)

lemma invoke_registered:
  assumes "handlers p name = Some h"
  shows "andThen (invoke E name method args) g p =
     (case perform E (Invoke h method args) (world p) of
        (Inl e, w) \<Rightarrow>
          (Inl e, p\<lparr>world := w, trace := trace p @ [(Invoke h method args, Inl e)]\<rparr>)
      | (Inr v, w) \<Rightarrow>
          g v (p\<lparr>world := w, trace := trace p @ [(Invoke h method args, Inr v)]\<rparr>))"
  using assms by (simp add: andThen_def invoke_def perform_call_def split: prod.splits sum.splits)

lemma invoke_all_calls:
  assumes "\<forall>(name, method) \<in> set cs. handlers p name = Some (hs name)"
    and "invoke_all E cs p = (r, p')"
  shows "\<exists>d. trace p' = trace p @ d \<and>
     prefix (map fst d) (map (\<lambda>(name, method). Invoke (hs name) method []) cs) \<and>
     (cs \<noteq> [] \<longrightarrow> d \<noteq> []) \<and>
     list_all (\<lambda>x. succeeded (snd x)) (butlast d) \<and>
     (list_all (\<lambda>x. succeeded (snd x)) d \<longrightarrow>
        map fst d = map (\<lambda>(name, method). Invoke (hs name) method []) cs \<and> r = Inr VUndefined) \<and>
     (\<not> list_all (\<lambda>x. succeeded (snd x)) d \<longrightarrow> r = snd (last d))"
  using assms
proof (induction cs arbitrary: p)
  case Nil
  then show ?case by (simp add: ret_def)
next
  case (Cons c cs)
  obtain name m where c: "c = (name, m)" by (cases c)
  from Cons.prems(1) c have h: "handlers p name = Some (hs name)" by simp
  obtain out w where pf: "perform E (Invoke (hs name) m []) (world p) = (out, w)"
    by (cases "perform E (Invoke (hs name) m []) (world p)")
  define p1 where "p1 = p\<lparr>world := w, trace := trace p @ [(Invoke (hs name) m [], out)]\<rparr>"
  show ?case
  proof (cases out)
    case (Inl e)
    with Cons.prems(2) c h pf have "r = Inl e" "p' = p1"
      by (auto simp: invoke_registered p1_def)
    then have "trace p' = trace p @ [(Invoke (hs name) m [], Inl e)]"
      by (simp add: p1_def Inl)
    with \<open>r = Inl e\<close> c show ?thesis
      by (intro exI [where x = "[(Invoke (hs name) m [], Inl e)]"])
        (simp add: succeeded_def)
  next
    case (Inr v)
    with Cons.prems(2) c h pf have rest: "invoke_all E cs p1 = (r, p')"
      by (auto simp: invoke_registered p1_def)
    have "\<forall>(name, method) \<in> set cs. handlers p1 name = Some (hs name)"
      using Cons.prems(1) by (simp add: p1_def)
    from Cons.IH [OF this rest] obtain d where d: "trace p' = trace p1 @ d"
      "prefix (map fst d) (map (\<lambda>(name, method). Invoke (hs name) method []) cs)"
      "list_all (\<lambda>x. succeeded (snd x)) (butlast d)"
      "list_all (\<lambda>x. succeeded (snd x)) d \<longrightarrow>
        map fst d = map (\<lambda>(name, method). Invoke (hs name) method []) cs \<and> r = Inr VUndefined"
      "\<not> list_all (\<lambda>x. succeeded (snd x)) d \<longrightarrow> r = snd (last d)"
      by blast
    have "d \<noteq> []" if "\<not> list_all (\<lambda>x. succeeded (snd x)) d"
      using that by auto
    with d c Inr show ?thesis
      by (intro exI [where x = "(Invoke (hs name) m [], Inr v) # d"])
        (auto simp: p1_def succeeded_def)
  qed
qed

lemma initializeHandlers_register_all:
  "initializeHandlers E =
     andThen (register_all E handler_table)
       (\<lambda>_ p. (Inr (), p\<lparr>inflight := inflight p @ [Loading]\<rparr>))"
  by (simp add: initializeHandlers_def handler_table_def andThen_def ret_def fun_eq_iff
      split: prod.splits sum.splits)

lemma register_all_result:
  assumes "register_all E tbl p = (r, p')"
  shows "\<exists>d. trace p' = trace p @ d \<and>
     handlers p' = registry_of (take (length (filter (\<lambda>x. succeeded (snd x)) d)) tbl) (handlers p) \<and>
     map fst d = map (\<lambda>(name, module). New module)
                   (take (Suc (length (filter (\<lambda>x. succeeded (snd x)) d))) tbl) \<and>
     length (filter (\<lambda>x. succeeded (snd x)) d) \<le> length tbl \<and>
     (if length (filter (\<lambda>x. succeeded (snd x)) d) = length tbl then r = Inr ()
      else d \<noteq> [] \<and> (\<exists>e. r = Inl e \<and> snd (last d) = Inl e)) \<and>
     state p' = state p \<and> listening p' = listening p \<and> conns p' = conns p \<and>
     timers p' = timers p \<and> inflight p' = inflight p \<and> unhandled p' = unhandled p \<and>
     alive p' = alive p"
  using assms
proof (induction tbl arbitrary: p)
  case Nil
  then show ?case by (simp add: ret_def)
next
  case (Cons c tbl)
  obtain name module where c: "c = (name, module)" by (cases c)
  obtain out w where pf: "perform E (New module) (world p) = (out, w)"
    by (cases "perform E (New module) (world p)")
  define p1 where "p1 = p\<lparr>world := w, trace := trace p @ [(New module, out)]\<rparr>"
  show ?case
  proof (cases out)
    case (Inl e)
    with Cons.prems c pf have "r = Inl e" "p' = p1"
      by (auto simp: andThen_def register_def perform_call_def p1_def)
    then show ?thesis
      by (intro exI [where x = "[(New module, Inl e)]"])
        (simp add: p1_def Inl c succeeded_def)
  next
    case (Inr v)
    define p2 where "p2 = p1\<lparr>handlers := (handlers p1)(name \<mapsto> Instance module)\<rparr>"
    from Cons.prems c pf Inr have "register_all E tbl p2 = (r, p')"
      by (auto simp: andThen_def register_def perform_call_def p1_def p2_def)
    from Cons.IH [OF this] obtain d where d: "trace p' = trace p2 @ d"
      "handlers p' = registry_of (take (length (filter (\<lambda>x. succeeded (snd x)) d)) tbl) (handlers p2)"
      "map fst d = map (\<lambda>(name, module). New module)
                   (take (Suc (length (filter (\<lambda>x. succeeded (snd x)) d))) tbl)"
      "length (filter (\<lambda>x. succeeded (snd x)) d) \<le> length tbl"
      "if length (filter (\<lambda>x. succeeded (snd x)) d) = length tbl then r = Inr ()
       else d \<noteq> [] \<and> (\<exists>e. r = Inl e \<and> snd (last d) = Inl e)"
      "state p' = state p2" "listening p' = listening p2" "conns p' = conns p2"
      "timers p' = timers p2" "inflight p' = inflight p2" "unhandled p' = unhandled p2"
      "alive p' = alive p2"
      by blast
    then show ?thesis
      by (intro exI [where x = "(New module, Inr v) # d"])
        (auto simp: p1_def p2_def Inr c succeeded_def split: if_splits)
  qed
qed

subsection \<open>The sample runs, evaluated\<close>

lemmas run_defs = andThen_def ret_def perform_call_def invoke_def invoke_with_store_def
  undefined_method_def handed_store_def is_handler_call_def console_error_def register_def
  initializeHandlers_def set_userPreferences_def loadUserState_catch_def loadUserState_def
  runPeriodicChecks_def analyzeUserPatterns_def updateKnowledgeBase_def property_def dispatch_def
  handleMessage_def on_message_def setupWebSocket_def startProactiveMonitoring_def dropped_def
  initial_def constructor_def job_body_def settle_def dequeue_def step_def run_def new_calls_def
  succeeded_def is_log_def sample_parse_def sample_result_def sample_env_def
  never_def only_def unfailing_def failing_def task_update_text_def ping_text_def
  handler_table_def

lemma started_eval:
  "started =
     \<lparr>handlers = registry_of handler_table Map.empty,
      state = \<lparr>activeProjects = {}, pendingTasks = [], upcomingEvents = [],
               lastAnalysis = VNull, userPreferences = VObj []\<rparr>,
      listening = True, conns = {},
      timers = [(300000, RunPeriodicChecks), (3600000, AnalyzeUserPatterns),
                (86400000, UpdateKnowledgeBase)],
      inflight = [], unhandled = [], alive = True, world = 10,
      trace = map (\<lambda>(name, module). (New module, Inr VUndefined)) handler_table @
              [(ReadFile ''state/user_state.json'', Inr (VStr ''{}''))]\<rparr>"
  by (simp add: started_def run_defs)

text \<open>
  The two calls of methods that the class does not define, in runs where every handler
  call succeeds: a medium-cadence firing ends with the TypeError of line 106 after its
  analysis, and the handling of a message of an unrecognized type ends with the report
  of the TypeError of line 137.
\<close>

lemma updateProactiveSuggestions_throws:
  "analyzeUserPatterns unfailing started =
     (Inl (TypeError ''updateProactiveSuggestions''),
      started\<lparr>world := 11,
        trace := trace started @
          [(Invoke (Instance ''./handlers/claude'') ''analyzePatterns'' [LiveStore (state started)], Inr (VStr ''analyzePatterns''))]\<rparr>)"
  by (simp add: started_eval run_defs)

lemma notifyHandlers_throws:
  "new_calls started (on_message unfailing 1 ping_text started) =
     [(ConsoleError ''Error handling message:'' (TypeError ''notifyHandlers''), Inr VUndefined)]"
  by (simp add: started_eval run_defs)

section \<open>The claims\<close>

subsection \<open>C1: a failing call in a firing\<close>

text \<open>
  C1, as the code has it. None of the three job bodies catches anything, so a firing
  ends at the first handler call that fails: every call it made before the last one
  succeeded, and nothing is logged by the platform. The failure is the rejection of the
  promise that the timer callback drops; it is unhandled, and whether the process
  survives it is the runtime's policy. The firing leaves the timer table, the registry
  and the connections as they were and takes only itself out of the invocations in
  flight; while the process lives, every timer that elapses afterwards still starts its
  job.
\<close>

theorem C1_failed_call_ends_firing:
  assumes "alive p" and "k < length (inflight p)" and "inflight p ! k = Firing j"
  shows "let p' = step E (Settle k) p; d = new_calls p p' in
           list_all (\<lambda>x. succeeded (snd x)) (butlast d) \<and>
           list_all (\<lambda>x. \<not> is_log (fst x)) d \<and>
           (\<forall>e. d \<noteq> [] \<and> snd (last d) = Inl e \<longrightarrow>
                unhandled p' = unhandled p @ [e] \<and> alive p' = (\<not> exits_on_unhandled E)) \<and>
           timers p' = timers p \<and> conns p' = conns p \<and> handlers p' = handlers p \<and>
           inflight p' = take k (inflight p) @ drop (Suc k) (inflight p) \<and>
           (alive p' \<longrightarrow>
              (\<forall>i < length (timers p).
                 inflight (step E (Tick i) p') = inflight p' @ [Firing (snd (timers p ! i))]))"
proof -
  define q where "q = dequeue k p"
  obtain r q' where body: "job_body E j q = (r, q')" by (cases "job_body E j q")
  define p' where "p' = step E (Settle k) p"
  have p': "p' = dropped E (r, q')"
    using assms body by (simp add: p'_def step_def settle_def q_def)
  from calls_only_job_body [of E j] body obtain d where
    same: "same_platform q q'" and tr: "trace q' = trace q @ d" and stop: "stops_at_failure r d"
    by (auto simp: calls_only_def dest: spec [where x = q])
  have d: "new_calls p p' = d"
    using tr by (simp add: p' q_def new_calls_def)
  have q_fields: "timers q = timers p" "conns q = conns p" "handlers q = handlers p"
    "inflight q = take k (inflight p) @ drop (Suc k) (inflight p)"
    "unhandled q = unhandled p" "alive q = alive p"
    by (simp_all add: q_def dequeue_def)
  have frame: "timers p' = timers p" "conns p' = conns p" "handlers p' = handlers p"
    "inflight p' = take k (inflight p) @ drop (Suc k) (inflight p)"
    using same q_fields by (simp_all add: p' same_platform_def)
  have order: "list_all (\<lambda>x. succeeded (snd x)) (butlast d)" "list_all (\<lambda>x. \<not> is_log (fst x)) d"
    using stop by (simp_all add: stops_at_failure_def)
  have rejected: "unhandled p' = unhandled p @ [e] \<and> alive p' = (\<not> exits_on_unhandled E)"
    if "d \<noteq> []" and "snd (last d) = Inl e" for e
  proof -
    from that have "last d \<in> set d" and "\<not> succeeded (snd (last d))"
      by (simp_all add: succeeded_def)
    then have "\<not> list_all (\<lambda>x. succeeded (snd x)) d"
      by (auto simp: list_all_iff)
    with stop that have "r = Inl e"
      by (auto simp: stops_at_failure_def)
    with same q_fields assms(1) show ?thesis
      by (simp add: p' dropped_def same_platform_def)
  qed
  have next_firing: "inflight (step E (Tick i) p') = inflight p' @ [Firing (snd (timers p ! i))]"
    if "alive p'" and "i < length (timers p)" for i
    using that frame by (simp add: step_def)
  show ?thesis
    unfolding Let_def p'_def [symmetric] d
    using order rejected frame next_firing by blast
qed

text \<open>
  C1 as stated fails: when \<^verbatim>\<open>checkUrgentTasks\<close> rejects, the short-cadence firing
  makes that one call and no other, and reports nothing.
\<close>

theorem C1_counterexample:
  "new_calls started (run (failing (Invoke (Instance ''./handlers/tasks'') ''checkUrgentTasks'' [])) [Tick 0, Settle 0] started) =
     [(Invoke (Instance ''./handlers/tasks'') ''checkUrgentTasks'' [], Inl (Failure ''rejected''))] \<and>
   Invoke (Instance ''./handlers/projects'') ''checkProjectDeadlines'' [] \<notin> set (map fst (trace (run (failing (Invoke (Instance ''./handlers/tasks'') ''checkUrgentTasks'' [])) [Tick 0, Settle 0] started)))"
  by (simp add: started_eval run_defs)

theorem C1_witness:
  "alive (step (failing (Invoke (Instance ''./handlers/tasks'') ''checkUrgentTasks'' [])) (Tick 0) started) \<and>
   inflight (step (failing (Invoke (Instance ''./handlers/tasks'') ''checkUrgentTasks'' [])) (Tick 0) started) ! 0 = Firing RunPeriodicChecks \<and>
   unhandled (step (failing (Invoke (Instance ''./handlers/tasks'') ''checkUrgentTasks'' [])) (Settle 0) (step (failing (Invoke (Instance ''./handlers/tasks'') ''checkUrgentTasks'' [])) (Tick 0) started)) =
     [Failure ''rejected''] \<and>
   alive (step (failing (Invoke (Instance ''./handlers/tasks'') ''checkUrgentTasks'' [])) (Settle 0) (step (failing (Invoke (Instance ''./handlers/tasks'') ''checkUrgentTasks'' [])) (Tick 0) started)) \<and>
   inflight (step (failing (Invoke (Instance ''./handlers/tasks'') ''checkUrgentTasks'' [])) (Tick 1)
     (step (failing (Invoke (Instance ''./handlers/tasks'') ''checkUrgentTasks'' [])) (Settle 0) (step (failing (Invoke (Instance ''./handlers/tasks'') ''checkUrgentTasks'' [])) (Tick 0) started))) =
     [Firing AnalyzeUserPatterns]"
  using C1_failed_call_ends_firing
    [of "step (failing (Invoke (Instance ''./handlers/tasks'') ''checkUrgentTasks'' [])) (Tick 0) started" 0 RunPeriodicChecks "failing (Invoke (Instance ''./handlers/tasks'') ''checkUrgentTasks'' [])"]
  by (simp add: started_eval run_defs)

subsection \<open>C2: a message that has been parsed\<close>




subsection \<open>C3: the initial load\<close>

text \<open>
  C3. When the snapshot cannot be read, or is read and \<^verbatim>\<open>JSON.parse\<close> rejects it,
  the load that \<^verbatim>\<open>initializeHandlers\<close> awaits ends with \<^verbatim>\<open>userPreferences\<close> set
  to the empty object; \<^verbatim>\<open>loadUserState\<close> returns normally, so no promise is
  rejected, the process stays alive, and the listener, the timers, the registry, the
  connections and the other invocations in flight are as the constructor left them.
\<close>

theorem C3_unusable_snapshot_gives_empty_preferences:
  assumes "alive p" and "k < length (inflight p)" and "inflight p ! k = Loading"
    and "case fst (readFile E ''state/user_state.json'' (world p)) of
           Inl e \<Rightarrow> True
         | Inr stateFile \<Rightarrow> \<not> succeeded (JSON_parse E stateFile)"
  shows "let p' = step E (Settle k) p in
     userPreferences (state p') = VObj [] \<and>
     fst (loadUserState E (dequeue k p)) = Inr VUndefined \<and>
     alive p' \<and> unhandled p' = unhandled p \<and>
     listening p' = listening p \<and> timers p' = timers p \<and> conns p' = conns p \<and>
     handlers p' = handlers p \<and>
     inflight p' = take k (inflight p) @ drop (Suc k) (inflight p)"
proof -
  obtain out w where rd: "readFile E ''state/user_state.json'' (world p) = (out, w)"
    by (cases "readFile E ''state/user_state.json'' (world p)")
  define p1 where "p1 = (dequeue k p)\<lparr>world := w,
      trace := trace p @ [(ReadFile ''state/user_state.json'', map_sum id VStr out)]\<rparr>"
  have "\<exists>e. loadUserState E (dequeue k p) = loadUserState_catch e p1"
  proof (cases out)
    case (Inl e)
    with rd have "loadUserState E (dequeue k p) = loadUserState_catch e p1"
      by (simp add: loadUserState_def dequeue_def p1_def)
    then show ?thesis ..
  next
    case (Inr stateFile)
    with assms(4) rd obtain e where "JSON_parse E stateFile = Inl e"
      by (cases "JSON_parse E stateFile") (simp_all add: succeeded_def)
    with Inr rd have "loadUserState E (dequeue k p) = loadUserState_catch e p1"
      by (simp add: loadUserState_def dequeue_def p1_def)
    then show ?thesis ..
  qed
  then obtain e where "loadUserState E (dequeue k p) = loadUserState_catch e p1" ..
  with assms(1-3) show ?thesis
    by (simp add: step_def settle_def dropped_def loadUserState_catch_def set_userPreferences_def
        console_error_def p1_def dequeue_def Let_def)
qed

theorem C3_witness:
  "inflight (constructor (sample_env never False (Inl (Failure ''ENOENT''))) 0) ! 0 = Loading \<and>
   userPreferences (state (step (sample_env never False (Inl (Failure ''ENOENT''))) (Settle 0)
     (constructor (sample_env never False (Inl (Failure ''ENOENT''))) 0))) = VObj [] \<and>
   alive (step (sample_env never False (Inl (Failure ''ENOENT''))) (Settle 0)
     (constructor (sample_env never False (Inl (Failure ''ENOENT''))) 0)) \<and>
   inflight (constructor (sample_env never False (Inr ''{oops'')) 0) ! 0 = Loading \<and>
   userPreferences (state (step (sample_env never False (Inr ''{oops'')) (Settle 0)
     (constructor (sample_env never False (Inr ''{oops'')) 0))) = VObj [] \<and>
   unhandled (step (sample_env never False (Inr ''{oops'')) (Settle 0)
     (constructor (sample_env never False (Inr ''{oops'')) 0)) = []"
  using C3_unusable_snapshot_gives_empty_preferences
    [of "constructor (sample_env never False (Inl (Failure ''ENOENT''))) 0" 0
        "sample_env never False (Inl (Failure ''ENOENT''))"]
    C3_unusable_snapshot_gives_empty_preferences
    [of "constructor (sample_env never False (Inr ''{oops'')) 0" 0
        "sample_env never False (Inr ''{oops'')"]
  by (simp add: run_defs)

subsection \<open>C4: a timer that elapses while its job is running\<close>

text \<open>
  C4, as the code has it. The callbacks of lines 79-81 start their job whenever the
  timer elapses; nothing records that a firing is running. So \<open>n\<close> elapses of one timer
  with no firing settled in between leave \<open>n\<close> more firings of its job in flight: none is
  skipped and none is queued behind another.
\<close>

theorem C4_every_tick_starts_a_firing:
  assumes "alive p" and "i < length (timers p)"
  shows "inflight (run E (replicate n (Tick i)) p) =
         inflight p @ replicate n (Firing (snd (timers p ! i)))"
proof -
  have "inflight (run E (replicate n (Tick i)) p) =
          inflight p @ replicate n (Firing (snd (timers p ! i))) \<and>
        alive (run E (replicate n (Tick i)) p) \<and>
        timers (run E (replicate n (Tick i)) p) = timers p"
  proof (induction n)
    case 0
    from assms show ?case by (simp add: run_def)
  next
    case (Suc n)
    have "replicate (Suc n) (Tick i) = replicate n (Tick i) @ [Tick i]"
      by (simp add: replicate_append_same)
    then have "run E (replicate (Suc n) (Tick i)) p =
        step E (Tick i) (run E (replicate n (Tick i)) p)"
      by (simp only: run_def foldl_append foldl.simps)
    with Suc assms(2) show ?case
      by (simp add: step_def replicate_append_same)
  qed
  then show ?thesis by simp
qed

text \<open>
  C4 as stated fails: the short-cadence timer elapses twice before the first firing has
  settled, and two firings of the job are in flight.
\<close>

theorem C4_counterexample:
  "inflight (run unfailing [Tick 0, Tick 0] started) =
     [Firing RunPeriodicChecks, Firing RunPeriodicChecks]"
  by (simp add: started_eval run_defs)

theorem C4_witness:
  "alive started \<and> 0 < length (timers started) \<and>
   inflight (run unfailing (replicate 3 (Tick 0)) started) =
     [Firing RunPeriodicChecks, Firing RunPeriodicChecks, Firing RunPeriodicChecks]"
  using C4_every_tick_starts_a_firing [of started 0 unfailing 3]
  by (simp add: started_eval numeral_3_eq_3)

subsection \<open>C5: the short-cadence sequence\<close>

text \<open>
  C5, as the code has it. With the five handlers registered, a short-cadence firing
  makes its calls in the order check urgent tasks, check project deadlines, check
  upcoming events, check important emails, refresh knowledge-base entries, starting
  with the first and stopping after the first call that fails: the calls made are a
  non-empty initial part of that sequence, all but the last succeeded, they are the
  whole sequence when none fails (and the firing then completes), and otherwise the
  firing fails with the failure of its last call.
\<close>

theorem C5_short_cadence_sequence:
  assumes "handlers p ''tasks'' = Some ht" and "handlers p ''projects'' = Some hp"
    and "handlers p ''calendar'' = Some hc" and "handlers p ''email'' = Some he"
    and "handlers p ''logseq'' = Some hl"
    and "runPeriodicChecks E p = (r, p')"
  shows "let d = new_calls p p';
             sequence = [Invoke ht ''checkUrgentTasks'' [], Invoke hp ''checkProjectDeadlines'' [],
                         Invoke hc ''checkUpcomingEvents'' [], Invoke he ''checkImportantEmails'' [],
                         Invoke hl ''updateEntries'' []]
         in prefix (map fst d) sequence \<and> d \<noteq> [] \<and>
            list_all (\<lambda>x. succeeded (snd x)) (butlast d) \<and>
            (list_all (\<lambda>x. succeeded (snd x)) d \<longrightarrow> map fst d = sequence \<and> r = Inr VUndefined) \<and>
            (\<not> list_all (\<lambda>x. succeeded (snd x)) d \<longrightarrow> r = snd (last d))"
proof -
  define cs where "cs = [(''tasks'', ''checkUrgentTasks''), (''projects'', ''checkProjectDeadlines''),
       (''calendar'', ''checkUpcomingEvents''), (''email'', ''checkImportantEmails''),
       (''logseq'', ''updateEntries'')]"
  define hs where "hs = (\<lambda>name. the (handlers p name))"
  have reg: "\<forall>(name, method) \<in> set cs. handlers p name = Some (hs name)"
    using assms(1-5) by (simp add: cs_def hs_def)
  have run: "invoke_all E cs p = (r, p')"
    using assms(6) by (simp add: runPeriodicChecks_invoke_all cs_def)
  have seq: "map (\<lambda>(name, method). Invoke (hs name) method []) cs =
      [Invoke ht ''checkUrgentTasks'' [], Invoke hp ''checkProjectDeadlines'' [],
       Invoke hc ''checkUpcomingEvents'' [], Invoke he ''checkImportantEmails'' [],
       Invoke hl ''updateEntries'' []]"
    using assms(1-5) by (simp add: cs_def hs_def)
  have "cs \<noteq> []" by (simp add: cs_def)
  with invoke_all_calls [OF reg run] obtain d where tr: "trace p' = trace p @ d"
    and rest: "prefix (map fst d) (map (\<lambda>(name, method). Invoke (hs name) method []) cs)"
      "d \<noteq> []" "list_all (\<lambda>x. succeeded (snd x)) (butlast d)"
      "list_all (\<lambda>x. succeeded (snd x)) d \<longrightarrow>
        map fst d = map (\<lambda>(name, method). Invoke (hs name) method []) cs \<and> r = Inr VUndefined"
      "\<not> list_all (\<lambda>x. succeeded (snd x)) d \<longrightarrow> r = snd (last d)"
    by blast
  from tr have "new_calls p p' = d" by (simp add: new_calls_def)
  with rest show ?thesis unfolding Let_def seq [symmetric] by simp
qed

text \<open>
  C5 as stated fails: when \<^verbatim>\<open>checkProjectDeadlines\<close> rejects, the firing has made
  two of the five calls.
\<close>

theorem C5_counterexample:
  "map fst (new_calls started (snd (runPeriodicChecks (failing (Invoke (Instance ''./handlers/projects'') ''checkProjectDeadlines'' [])) started))) = [Invoke (Instance ''./handlers/tasks'') ''checkUrgentTasks'' [], Invoke (Instance ''./handlers/projects'') ''checkProjectDeadlines'' []] \<and>
   fst (runPeriodicChecks (failing (Invoke (Instance ''./handlers/projects'') ''checkProjectDeadlines'' [])) started) = Inl (Failure ''rejected'')"
  by (simp add: started_eval run_defs)

theorem C5_witness:
  "handlers started ''tasks'' = Some (Instance ''./handlers/tasks'') \<and>
   handlers started ''projects'' = Some (Instance ''./handlers/projects'') \<and>
   handlers started ''calendar'' = Some (Instance ''./handlers/calendar'') \<and>
   handlers started ''email'' = Some (Instance ''./handlers/email'') \<and>
   handlers started ''logseq'' = Some (Instance ''./handlers/logseq'') \<and>
   map fst (new_calls started (snd (runPeriodicChecks unfailing started))) =
     [Invoke (Instance ''./handlers/tasks'') ''checkUrgentTasks'' [], Invoke (Instance ''./handlers/projects'') ''checkProjectDeadlines'' [], Invoke (Instance ''./handlers/calendar'') ''checkUpcomingEvents'' [], Invoke (Instance ''./handlers/email'') ''checkImportantEmails'' [], Invoke (Instance ''./handlers/logseq'') ''updateEntries'' []] \<and>
   fst (runPeriodicChecks unfailing started) = Inr VUndefined"
  using C5_short_cadence_sequence
    [of started "Instance ''./handlers/tasks''" "Instance ''./handlers/projects''"
        "Instance ''./handlers/calendar''" "Instance ''./handlers/email''"
        "Instance ''./handlers/logseq''" unfailing "fst (runPeriodicChecks unfailing started)"
        "snd (runPeriodicChecks unfailing started)"]
  by (simp add: started_eval run_defs)

subsection \<open>C6: the medium-cadence firing\<close>




subsection \<open>C7: the long-cadence sequence\<close>

text \<open>
  C7, as the code has it. With the \<^verbatim>\<open>memory\<close>, \<^verbatim>\<open>claude\<close> and \<^verbatim>\<open>projects\<close>
  handlers registered, a long-cadence firing calls \<^verbatim>\<open>updateKnowledgeBase\<close>; if that
  succeeds, \<^verbatim>\<open>generateInsights\<close>; and if that returns insights,
  \<^verbatim>\<open>updateStrategies\<close> with exactly those insights. A call that fails is the
  firing's last, and the firing fails with it.
\<close>

theorem C7_long_cadence_sequence:
  assumes "handlers p ''memory'' = Some hm" and "handlers p ''claude'' = Some hc"
    and "handlers p ''projects'' = Some hp" and "updateKnowledgeBase E p = (r, p')"
  shows "let d = new_calls p p' in
     (\<exists>e. d = [(Invoke hm ''updateKnowledgeBase'' [], Inl e)] \<and> r = Inl e) \<or>
     (\<exists>v e. d = [(Invoke hm ''updateKnowledgeBase'' [], Inr v),
                 (Invoke hc ''generateInsights'' [], Inl e)] \<and> r = Inl e) \<or>
     (\<exists>v insights out.
        d = [(Invoke hm ''updateKnowledgeBase'' [], Inr v),
             (Invoke hc ''generateInsights'' [], Inr insights),
             (Invoke hp ''updateStrategies'' [Val insights], out)] \<and>
        r = (if succeeded out then Inr VUndefined else out))"
proof -
  obtain o1 w1 where c1: "perform E (Invoke hm ''updateKnowledgeBase'' []) (world p) = (o1, w1)"
    by (cases "perform E (Invoke hm ''updateKnowledgeBase'' []) (world p)")
  obtain o2 w2 where c2: "perform E (Invoke hc ''generateInsights'' []) w1 = (o2, w2)"
    by (cases "perform E (Invoke hc ''generateInsights'' []) w1")
  show ?thesis
  proof (cases o1)
    case (Inl e)
    with assms c1 show ?thesis
      by (simp add: updateKnowledgeBase_def invoke_registered new_calls_def Let_def) auto
  next
    case v: (Inr v)
    show ?thesis
    proof (cases o2)
      case (Inl e)
      with assms c1 c2 v show ?thesis
        by (simp add: updateKnowledgeBase_def invoke_registered new_calls_def Let_def) auto
    next
      case (Inr insights)
      obtain o3 w3 where
        c3: "perform E (Invoke hp ''updateStrategies'' [Val insights]) w2 = (o3, w3)"
        by (cases "perform E (Invoke hp ''updateStrategies'' [Val insights]) w2")
      with assms c1 c2 v Inr have
        "new_calls p p' =
           [(Invoke hm ''updateKnowledgeBase'' [], Inr v),
            (Invoke hc ''generateInsights'' [], Inr insights),
            (Invoke hp ''updateStrategies'' [Val insights], o3)] \<and>
         r = (if succeeded o3 then Inr VUndefined else o3)"
        by (cases o3)
          (auto simp: updateKnowledgeBase_def invoke_registered new_calls_def ret_def
            succeeded_def)
      then show ?thesis
        unfolding Let_def by blast
    qed
  qed
qed

text \<open>
  C7 as stated fails: when the refresh of the knowledge graph rejects, no insights are
  generated and no strategy is updated.
\<close>

theorem C7_counterexample:
  "new_calls started (snd (updateKnowledgeBase (failing (Invoke (Instance ''./handlers/memory'') ''updateKnowledgeBase'' [])) started)) =
     [(Invoke (Instance ''./handlers/memory'') ''updateKnowledgeBase'' [], Inl (Failure ''rejected''))]"
  by (simp add: started_eval run_defs)

theorem C7_witness:
  "handlers started ''memory'' = Some (Instance ''./handlers/memory'') \<and>
   handlers started ''claude'' = Some (Instance ''./handlers/claude'') \<and>
   handlers started ''projects'' = Some (Instance ''./handlers/projects'') \<and>
   new_calls started (snd (updateKnowledgeBase unfailing started)) =
     [(Invoke (Instance ''./handlers/memory'') ''updateKnowledgeBase'' [], Inr (VStr ''updateKnowledgeBase'')), (Invoke (Instance ''./handlers/claude'') ''generateInsights'' [], Inr (VStr ''generateInsights'')),
      (Invoke (Instance ''./handlers/projects'') ''updateStrategies'' [Val (VStr ''generateInsights'')], Inr (VStr ''updateStrategies''))]"
  using C7_long_cadence_sequence
    [of started "Instance ''./handlers/memory''" "Instance ''./handlers/claude''"
        "Instance ''./handlers/projects''" unfailing "fst (updateKnowledgeBase unfailing started)"
        "snd (updateKnowledgeBase unfailing started)"]
  by (simp add: started_eval run_defs)

subsection \<open>C8: a message whose handling fails\<close>

text \<open>
  C8. When the handling of a message settles and either \<^verbatim>\<open>JSON.parse\<close> has thrown or
  \<^verbatim>\<open>handleMessage\<close> has failed (the dispatched handler call among its causes), the
  last thing the handling does is report that failure with \<^verbatim>\<open>console.error\<close>. No
  connection is closed, no promise is rejected and the process stays alive; the
  handling takes only itself out of the invocations in flight, so the messages of other
  connections that are being handled stay in flight, and the timers stay armed.
\<close>

theorem C8_failure_is_reported_and_contained:
  assumes "alive p" and "k < length (inflight p)" and "inflight p ! k = Handling ws message"
    and "JSON_parse E message = Inl e \<or>
         (\<exists>data. JSON_parse E message = Inr data \<and>
                 fst (handleMessage E data ws (dequeue k p)) = Inl e)"
  shows "let p' = step E (Settle k) p in
     new_calls p p' \<noteq> [] \<and>
     last (new_calls p p') = (ConsoleError ''Error handling message:'' e, Inr VUndefined) \<and>
     conns p' = conns p \<and> alive p' \<and> unhandled p' = unhandled p \<and>
     timers p' = timers p \<and>
     inflight p' = take k (inflight p) @ drop (Suc k) (inflight p)"
proof -
  define q where "q = dequeue k p"
  have q: "trace q = trace p" "conns q = conns p" "alive q = alive p"
    "unhandled q = unhandled p" "timers q = timers p"
    "inflight q = take k (inflight p) @ drop (Suc k) (inflight p)"
    by (simp_all add: q_def dequeue_def)
  have st: "step E (Settle k) p = on_message E ws message q"
    using assms(1-3) by (simp add: step_def settle_def q_def)
  from assms(4) have "\<exists>q'. on_message E ws message q = console_error ''Error handling message:'' e q'
      \<and> same_platform q q' \<and> (\<exists>d. trace q' = trace q @ d)"
  proof
    assume "JSON_parse E message = Inl e"
    then show ?thesis
      by (intro exI [where x = q]) (simp add: on_message_def)
  next
    assume "\<exists>data. JSON_parse E message = Inr data \<and>
        fst (handleMessage E data ws (dequeue k p)) = Inl e"
    then obtain data where data: "JSON_parse E message = Inr data"
      and failed: "fst (handleMessage E data ws q) = Inl e"
      by (auto simp: q_def)
    obtain q' where hm: "handleMessage E data ws q = (Inl e, q')"
      using failed by (cases "handleMessage E data ws q") simp
    from calls_only_handleMessage [of E data ws] hm
    have "same_platform q q' \<and> (\<exists>d. trace q' = trace q @ d)"
      by (auto simp: calls_only_def dest: spec [where x = q])
    with data hm show ?thesis
      by (intro exI [where x = q']) (simp add: on_message_def)
  qed
  then obtain q' d where "step E (Settle k) p = console_error ''Error handling message:'' e q'"
    and "same_platform q q'" and "trace q' = trace q @ d"
    using st by auto
  with q assms(1) show ?thesis
    by (simp add: Let_def console_error_def same_platform_def new_calls_def)
qed

theorem C8_witness:
  "inflight (run (failing (Invoke (Instance ''./handlers/tasks'') ''handleTaskUpdate'' [Val (VObj [(''id'', VStr ''t1'')])])) [Connect 1, Connect 2, Message 1 task_update_text,
       Message 2 ping_text] started) =
     [Handling 1 task_update_text, Handling 2 ping_text] \<and>
   last (trace (run (failing (Invoke (Instance ''./handlers/tasks'') ''handleTaskUpdate'' [Val (VObj [(''id'', VStr ''t1'')])])) [Connect 1, Connect 2, Message 1 task_update_text,
       Message 2 ping_text, Settle 0] started)) =
     (ConsoleError ''Error handling message:'' (Failure ''rejected''), Inr VUndefined) \<and>
   conns (run (failing (Invoke (Instance ''./handlers/tasks'') ''handleTaskUpdate'' [Val (VObj [(''id'', VStr ''t1'')])])) [Connect 1, Connect 2, Message 1 task_update_text,
       Message 2 ping_text, Settle 0] started) = {1, 2} \<and>
   inflight (run (failing (Invoke (Instance ''./handlers/tasks'') ''handleTaskUpdate'' [Val (VObj [(''id'', VStr ''t1'')])])) [Connect 1, Connect 2, Message 1 task_update_text,
       Message 2 ping_text, Settle 0] started) = [Handling 2 ping_text]"
  using C8_failure_is_reported_and_contained
    [of "run (failing (Invoke (Instance ''./handlers/tasks'') ''handleTaskUpdate'' [Val (VObj [(''id'', VStr ''t1'')])])) [Connect 1, Connect 2, Message 1 task_update_text,
           Message 2 ping_text] started"
        0 1 task_update_text "failing (Invoke (Instance ''./handlers/tasks'') ''handleTaskUpdate'' [Val (VObj [(''id'', VStr ''t1'')])])" "Failure ''rejected''"]
  by (simp add: started_eval run_defs insert_commute)

subsection \<open>C9: building the registry\<close>

text \<open>
  C9, as the code has it. The registry is filled one handler at a time, in the order of
  lines 40-48, and the constructor neither awaits nor catches
  \<^verbatim>\<open>initializeHandlers\<close>. With \<open>k\<close> the number of constructions that succeeded, the
  platform the constructor returns holds exactly the first \<open>k\<close> handlers of that order
  and has attempted one construction more when \<open>k < 9\<close>; in every case the connection
  listener is installed and the three timers are armed. With all nine built the initial
  load is in flight; with fewer, the load is never started and the failure is an
  unhandled rejection, fatal only under a runtime that terminates the process for it.
\<close>

theorem C9_registry_is_built_one_by_one:
  "let p = constructor E w; k = length (filter (\<lambda>x. succeeded (snd x)) (trace p)) in
     handlers p = registry_of (take k handler_table) Map.empty \<and>
     map fst (trace p) = map (\<lambda>(name, module). New module) (take (Suc k) handler_table) \<and>
     k \<le> 9 \<and> listening p \<and> conns p = {} \<and>
     timers p = [(300000, RunPeriodicChecks), (3600000, AnalyzeUserPatterns),
                 (86400000, UpdateKnowledgeBase)] \<and>
     (if k = 9 then inflight p = [Loading] \<and> unhandled p = [] \<and> alive p
      else inflight p = [] \<and> map Inl (unhandled p) = [snd (last (trace p))] \<and>
           alive p = (\<not> exits_on_unhandled E))"
proof -
  obtain r q where reg: "register_all E handler_table (initial w) = (r, q)"
    by (cases "register_all E handler_table (initial w)")
  define k where "k = length (filter (\<lambda>x. succeeded (snd x)) (trace q))"
  have len: "length handler_table = 9"
    by (simp add: handler_table_def)
  from register_all_result [OF reg] have q:
    "handlers q = registry_of (take k handler_table) Map.empty"
    "map fst (trace q) = map (\<lambda>(name, module). New module) (take (Suc k) handler_table)"
    "k \<le> 9"
    "if k = 9 then r = Inr ()
     else trace q \<noteq> [] \<and> (\<exists>e. r = Inl e \<and> snd (last (trace q)) = Inl e)"
    "listening q = False" "conns q = {}" "timers q = []" "inflight q = []" "unhandled q = []"
    "alive q"
    by (auto simp: initial_def k_def len)
  define p where "p = constructor E w"
  have p: "p = startProactiveMonitoring (setupWebSocket (dropped E
      (case r of Inl e \<Rightarrow> (Inl e, q)
       | Inr u \<Rightarrow> (Inr (), q\<lparr>inflight := inflight q @ [Loading]\<rparr>))))"
    using reg
    by (simp add: p_def constructor_def initializeHandlers_register_all andThen_def
        split: sum.splits)
  have tr: "trace p = trace q"
    by (cases r) (simp_all add: p startProactiveMonitoring_def setupWebSocket_def dropped_def)
  have "handlers p = registry_of (take k handler_table) Map.empty \<and>
     map fst (trace p) = map (\<lambda>(name, module). New module) (take (Suc k) handler_table) \<and>
     k \<le> 9 \<and> listening p \<and> conns p = {} \<and>
     timers p = [(300000, RunPeriodicChecks), (3600000, AnalyzeUserPatterns),
                 (86400000, UpdateKnowledgeBase)] \<and>
     (if k = 9 then inflight p = [Loading] \<and> unhandled p = [] \<and> alive p
      else inflight p = [] \<and> map Inl (unhandled p) = [snd (last (trace p))] \<and>
           alive p = (\<not> exits_on_unhandled E))"
  proof (cases "k = 9")
    case True
    with q(4) have "r = Inr ()" by simp
    with q True show ?thesis
      by (simp add: p startProactiveMonitoring_def setupWebSocket_def dropped_def)
  next
    case False
    with q(4) obtain e where "r = Inl e" "snd (last (trace q)) = Inl e" by auto
    with q False show ?thesis
      by (simp add: p startProactiveMonitoring_def setupWebSocket_def dropped_def)
  qed
  then show ?thesis
    unfolding Let_def p_def [symmetric] tr k_def [symmetric] .
qed

text \<open>
  C9 as stated fails: when the third constructor throws, the platform is left with a
  registry of two handlers, listening and with its timers armed.
\<close>

theorem C9_counterexample:
  "dom (handlers (constructor (failing (New ''./handlers/memory'')) 0)) =
     {''logseq'', ''filesystem''} \<and>
   alive (constructor (failing (New ''./handlers/memory'')) 0) \<and>
   listening (constructor (failing (New ''./handlers/memory'')) 0) \<and>
   map snd (timers (constructor (failing (New ''./handlers/memory'')) 0)) =
     [RunPeriodicChecks, AnalyzeUserPatterns, UpdateKnowledgeBase] \<and>
   unhandled (constructor (failing (New ''./handlers/memory'')) 0) = [Failure ''rejected'']"
  by (simp add: run_defs insert_commute)

theorem C9_witness:
  "length (filter (\<lambda>x. succeeded (snd x)) (trace (constructor unfailing 0))) = 9 \<and>
   handlers (constructor unfailing 0) = registry_of handler_table Map.empty \<and>
   inflight (constructor unfailing 0) = [Loading] \<and>
   unhandled (constructor unfailing 0) = []"
  using C9_registry_is_built_one_by_one [of unfailing 0]
  by (simp add: run_defs)

subsection \<open>C10: a message that does not parse\<close>

text \<open>
  C10. When \<^verbatim>\<open>JSON.parse\<close> throws on a message, handling it does one thing: it
  reports the error with \<^verbatim>\<open>console.error\<close>. No handler operation is invoked and
  \<^verbatim>\<open>notifyHandlers\<close> is not called; the five fields of the state store, the registry
  and the world outside are unchanged.
\<close>

theorem C10_unparsable_message_is_dropped:
  assumes "alive p" and "k < length (inflight p)" and "inflight p ! k = Handling ws message"
    and "JSON_parse E message = Inl e"
  shows "let p' = step E (Settle k) p in
     new_calls p p' = [(ConsoleError ''Error handling message:'' e, Inr VUndefined)] \<and>
     activeProjects (state p') = activeProjects (state p) \<and>
     pendingTasks (state p') = pendingTasks (state p) \<and>
     upcomingEvents (state p') = upcomingEvents (state p) \<and>
     lastAnalysis (state p') = lastAnalysis (state p) \<and>
     userPreferences (state p') = userPreferences (state p) \<and>
     handlers p' = handlers p \<and> world p' = world p"
  using assms
  by (simp add: step_def settle_def on_message_def console_error_def dequeue_def new_calls_def)

theorem C10_witness:
  "inflight (run unfailing [Connect 1, Message 1 ''{oops''] started) ! 0 = Handling 1 ''{oops'' \<and>
   JSON_parse unfailing ''{oops'' = Inl (SyntaxError ''{oops'') \<and>
   new_calls (run unfailing [Connect 1, Message 1 ''{oops''] started)
     (run unfailing [Connect 1, Message 1 ''{oops'', Settle 0] started) =
     [(ConsoleError ''Error handling message:'' (SyntaxError ''{oops''), Inr VUndefined)] \<and>
   state (run unfailing [Connect 1, Message 1 ''{oops'', Settle 0] started) = state started"
  using C10_unparsable_message_is_dropped
    [of "run unfailing [Connect 1, Message 1 ''{oops''] started" 0 1 "''{oops''" unfailing
        "SyntaxError ''{oops''"]
  by (simp add: started_eval run_defs)

end
